theory Spec2Isabelle
  imports Main "HOL-Library.AList"
begin

section \<open>The JIT log objects of vmprof (vmprof/log/objects.py)\<close>

text \<open>
  The module is Python 2 code: a \<open>str\<close> is a byte string, \<open>range\<close> returns a list and
  \<open>''.join\<close> concatenates what \<open>struct.pack\<close> returns. The embedding follows the
  interpreter for which \<open>PY3\<close> is false. A byte string is a \<^typ>\<open>string\<close>, a Python integer
  an \<^typ>\<open>int\<close>, a \<open>dict\<close> an association list in its iteration order, an exception a
  value of \<open>error\<close>. Operations are values: an operation is in one stage only, and a
  stage is in the dictionary of one trace only. The methods that print or serialize
  (\<open>__repr__\<close>, \<open>pretty_print\<close>, \<open>_serialize\<close>) and \<open>main\<close> are not part of the embedding.
\<close>

datatype error =
    KeyError | IndexError | TypeError | AssertionError | AttributeError
  | NotImplementedError | IOError | StructError

subsection \<open>Python sequence operations\<close>

text \<open>
  A slice bound \<open>i\<close> on a sequence of length \<open>n\<close>: a negative bound counts from the end,
  and every bound is clamped into \<open>0..n\<close>.
\<close>

definition slice_index :: "int \<Rightarrow> nat \<Rightarrow> nat" where
  "slice_index i n = (if i < 0 then nat (max 0 (i + int n)) else min (nat i) n)"

text \<open>\<open>xs[:i]\<close>, \<open>xs[i:]\<close> and \<open>xs[i:j]\<close>.\<close>

definition slice_to :: "int \<Rightarrow> 'a list \<Rightarrow> 'a list" where
  "slice_to i xs = take (slice_index i (length xs)) xs"

definition slice_from :: "int \<Rightarrow> 'a list \<Rightarrow> 'a list" where
  "slice_from i xs = drop (slice_index i (length xs)) xs"

definition slice :: "int \<Rightarrow> int \<Rightarrow> 'a list \<Rightarrow> 'a list" where
  "slice i j xs =
     (let lo = slice_index i (length xs); hi = slice_index j (length xs)
      in take (hi - lo) (drop lo xs))"

text \<open>\<open>xs[i]\<close>: the positions are \<open>0\<close> to \<open>len(xs) - 1\<close>, and \<open>-1\<close> down to \<open>-len(xs)\<close>
  for the same elements from the last one backwards; any other index raises
  \<open>IndexError\<close>.\<close>

definition index :: "'a list \<Rightarrow> int \<Rightarrow> error + 'a" where
  "index xs i =
     (if 0 \<le> i \<and> i < int (length xs) then Inr (xs ! nat i)
      else if i < 0 \<and> - int (length xs) \<le> i then Inr (xs ! nat (int (length xs) + i))
      else Inl IndexError)"

subsection \<open>FlatOp and MergePoint\<close>

text \<open>A value of a merge point: a string or an integer, as the decoder read it.\<close>

datatype sem_value = SemStr string | SemInt int

record FlatOp =
  opnum :: int
  opname :: string
  args :: "string list"
  result :: "string option"
  descr :: "string option"
  descr_number :: "int option"
  core_dump :: "(int \<times> string) option"

text \<open>An operation of a stage is a \<open>FlatOp\<close> or its subclass \<open>MergePoint\<close>, which has
  the field \<open>values\<close> only (its constructor does not call the one of \<open>FlatOp\<close>).\<close>

datatype op = Flat FlatOp | MergePoint "(int \<times> sem_value) list"

text \<open>A patch of the forest: \<open>(timeval, addr, content)\<close>.\<close>

type_synonym patch = "int \<times> int \<times> string"

text \<open>One round of the loop of \<open>FlatOp.get_core_dump\<close> over the patches.\<close>

definition apply_patch :: "int \<Rightarrow> int \<Rightarrow> int \<Rightarrow> string \<Rightarrow> patch \<Rightarrow> string" where
  "apply_patch op_off base_addr tv coredump p =
     (case p of (timepos, addr, content) \<Rightarrow>
        if tv < timepos then coredump
        else
          let patch_start = (addr - base_addr) - op_off;
              patch_end = patch_start + int (length content);
              content_end = int (length content) - 1;
              (patch_end, content_end) =
                (if patch_end \<ge> int (length coredump)
                 then (int (length coredump), int (length coredump) - patch_start)
                 else (patch_end, content_end))
          in slice_to patch_start coredump
             @ slice_to content_end content
             @ slice_from patch_end coredump)"

text \<open>\<open>FlatOp.get_core_dump\<close>; reading \<open>self.core_dump[1]\<close> when no core dump was set
  raises \<open>TypeError\<close>.\<close>

definition FlatOp_get_core_dump :: "FlatOp \<Rightarrow> int \<Rightarrow> patch list \<Rightarrow> int \<Rightarrow> error + string" where
  "FlatOp_get_core_dump self base_addr ps tv =
     (case core_dump self of
        None \<Rightarrow> Inl TypeError
      | Some (op_off, dump) \<Rightarrow> Inr (foldl (apply_patch op_off base_addr tv) dump ps))"

text \<open>\<open>MergePoint.get_core_dump\<close> raises \<open>NotImplementedError\<close>.\<close>

fun op_get_core_dump :: "op \<Rightarrow> int \<Rightarrow> patch list \<Rightarrow> int \<Rightarrow> error + string" where
  "op_get_core_dump (Flat f) base_addr ps tv = FlatOp_get_core_dump f base_addr ps tv"
| "op_get_core_dump (MergePoint vs) base_addr ps tv = Inl NotImplementedError"

subsection \<open>Constants (vmprof/log/constants.py)\<close>

definition MARK_TRACE :: string where "MARK_TRACE = [CHR 0x17]"
definition MARK_TRACE_OPT :: string where "MARK_TRACE_OPT = [CHR 0x18]"
definition MARK_TRACE_ASM :: string where "MARK_TRACE_ASM = [CHR 0x19]"

text \<open>
  \<open>constants.py\<close> defines the marks from \<open>MARK_JITLOG_START\<close> to \<open>MARK_JITLOG_END\<close> and
  no \<open>MARK_SOURCE_CODE\<close>: reading \<open>const.MARK_SOURCE_CODE\<close> raises \<open>AttributeError\<close>.
\<close>

definition MARK_SOURCE_CODE :: "error + string" where
  "MARK_SOURCE_CODE = Inl AttributeError"

definition SEM_TYPE_NAMES :: "(int \<times> string) list" where
  "SEM_TYPE_NAMES =
     [(0x10, ''opcode''), (0x8, ''scope''), (0x1, ''filename''), (0x4, ''index''),
      (0x2, ''lineno'')]"

subsection \<open>Descriptors and source lines of an operation\<close>

text \<open>\<open>FlatOp.has_descr(descr=None)\<close>: without an argument (or with one that is false,
  as 0 is) it tells whether the operation has a descriptor text; with an argument it
  compares the descriptor number.\<close>

definition FlatOp_has_descr :: "FlatOp \<Rightarrow> int option \<Rightarrow> bool" where
  "FlatOp_has_descr self d =
     (if d = None \<or> d = Some 0 then descr self \<noteq> None else d = descr_number self)"

text \<open>\<open>MergePoint.has_descr\<close> returns \<open>False\<close>.\<close>

fun has_descr :: "op \<Rightarrow> int option \<Rightarrow> bool" where
  "has_descr (Flat f) d = FlatOp_has_descr f d"
| "has_descr (MergePoint vs) d = False"

text \<open>The loop of \<open>MergePoint.get_source_line\<close>: an unknown tag raises \<open>KeyError\<close>.\<close>

fun scan_values ::
  "(int \<times> sem_value) list \<Rightarrow> sem_value option \<Rightarrow> sem_value option
   \<Rightarrow> error + (sem_value option \<times> sem_value option)" where
  "scan_values [] filename lineno = Inr (filename, lineno)"
| "scan_values ((sem_type, v) # vs) filename lineno =
     (case map_of SEM_TYPE_NAMES sem_type of
        None \<Rightarrow> Inl KeyError
      | Some name \<Rightarrow>
          scan_values vs
            (if name = ''filename'' then Some v else filename)
            (if name = ''lineno'' then Some v else lineno))"

definition get_source_line ::
  "(int \<times> sem_value) list \<Rightarrow> error + (sem_value \<times> sem_value option)" where
  "get_source_line vs =
     (case scan_values vs None None of
        Inl e \<Rightarrow> Inl e
      | Inr (filename, lineno) \<Rightarrow>
          (case (filename, lineno) of
             (Some f, Some l) \<Rightarrow> Inr (l, Some f)
           | _ \<Rightarrow> Inr (SemInt 0, None)))"

text \<open>The truth value of a merge point value (\<open>if filename:\<close>).\<close>

fun truthy :: "sem_value \<Rightarrow> bool" where
  "truthy (SemStr s) = (s \<noteq> [])"
| "truthy (SemInt i) = (i \<noteq> 0)"

subsection \<open>Stage\<close>

record Stage =
  mark :: string
  ops :: "op list"
  timeval :: int

definition Stage_init :: "string \<Rightarrow> int \<Rightarrow> Stage" where
  "Stage_init m tv = \<lparr> mark = m, ops = [], timeval = tv \<rparr>"

definition get_last_op :: "Stage \<Rightarrow> op option" where
  "get_last_op self = (if length (ops self) = 0 then None else Some (last (ops self)))"

text \<open>The class \<open>Stage\<close> defines neither \<open>__nonzero__\<close> nor \<open>__len__\<close>: every instance
  is true.\<close>

definition Stage_bool :: "Stage \<Rightarrow> bool" where
  "Stage_bool self = True"

subsection \<open>Trace\<close>

text \<open>
  A trace reads \<open>self.forest.timepos\<close> and \<open>self.forest.patches\<close>; the methods below take
  these values as arguments. A method that changes the trace returns the exception it
  raised, if any, with the trace as it is then: what was written before the exception
  stays written.
\<close>

record Trace =
  trace_type :: string
  inputargs :: "string list"
  unique_id :: int
  stages :: "(string \<times> Stage) list"
  last_mark :: "string option"
  addrs :: "int \<times> int"
  my_patches :: "patch list option"
  bridges :: "(int \<times> int \<times> int) list"
  descr_numbers :: "int option set"
  counter :: int
  merge_point_files :: "(sem_value \<times> sem_value list) list"

definition Trace_init :: "string \<Rightarrow> int \<Rightarrow> error + Trace" where
  "Trace_init ty uid =
     (if ty = ''loop'' \<or> ty = ''bridge''
      then Inr \<lparr> trace_type = ty, inputargs = [], unique_id = uid, stages = [],
                 last_mark = None, addrs = (-1, -1), my_patches = None, bridges = [],
                 descr_numbers = {}, counter = 0, merge_point_files = [] \<rparr>
      else Inl AssertionError)"

definition get_stage :: "Trace \<Rightarrow> string option \<Rightarrow> error + Stage" where
  "get_stage self ty =
     (case ty of
        None \<Rightarrow> Inl AssertionError
      | Some k \<Rightarrow> (case map_of (stages self) k of None \<Rightarrow> Inl KeyError | Some s \<Rightarrow> Inr s))"

definition Trace_stitch_bridge :: "Trace \<Rightarrow> int \<Rightarrow> int \<Rightarrow> int \<Rightarrow> Trace" where
  "Trace_stitch_bridge self tv dn addr_to =
     self\<lparr>bridges := bridges self @ [(tv, dn, addr_to)]\<rparr>"

text \<open>The last two lines of \<open>start_mark\<close>; \<open>tick\<close> is \<open>self.forest.timepos\<close>.\<close>

definition new_stage :: "Trace \<Rightarrow> int \<Rightarrow> string \<Rightarrow> Trace" where
  "new_stage self tick mark_name =
     self\<lparr>last_mark := Some mark_name,
          stages := AList.update mark_name (Stage_init mark_name tick) (stages self)\<rparr>"

definition start_mark :: "Trace \<Rightarrow> int \<Rightarrow> string \<Rightarrow> error option \<times> Trace" where
  "start_mark self tick m =
     (if m = MARK_TRACE_OPT then (None, new_stage self tick ''opt'')
      else if m = MARK_TRACE_ASM then (None, new_stage self tick ''asm'')
      else if m \<noteq> MARK_TRACE then (Some AssertionError, self)
      else if last_mark self = Some ''noopt'' then (None, self)
      else (None, new_stage self tick ''noopt''))"

definition get_last_stage :: "Trace \<Rightarrow> Stage option" where
  "get_last_stage self =
     (case last_mark self of None \<Rightarrow> None | Some k \<Rightarrow> map_of (stages self) k)"

text \<open>
  \<open>add_instr\<close> in its three steps. First \<open>if op.has_descr(): self.descr_numbers.add(op.descr_number)\<close>;
  for a merge point \<open>has_descr\<close> is false.
\<close>

fun register_descr :: "Trace \<Rightarrow> op \<Rightarrow> Trace" where
  "register_descr self (Flat f) =
     (if has_descr (Flat f) None
      then self\<lparr>descr_numbers := insert (descr_number f) (descr_numbers self)\<rparr>
      else self)"
| "register_descr self (MergePoint vs) = self"

text \<open>Then \<open>self.get_stage(self.last_mark).get_ops().append(op)\<close>: \<open>get_stage\<close> fails its
  assertion when there is no last mark and raises \<open>KeyError\<close> when the mark has no stage.\<close>

definition append_op :: "Trace \<Rightarrow> op \<Rightarrow> error option \<times> Trace" where
  "append_op self opr =
     (case last_mark self of
        None \<Rightarrow> (Some AssertionError, self)
      | Some k \<Rightarrow>
          (case map_of (stages self) k of
             None \<Rightarrow> (Some KeyError, self)
           | Some stage \<Rightarrow>
               (None, self\<lparr>stages :=
                  AList.update k (stage\<lparr>ops := ops stage @ [opr]\<rparr>) (stages self)\<rparr>)))"

text \<open>Last, a merge point with a file name that is true records its line number.\<close>

fun record_source_line :: "Trace \<Rightarrow> op \<Rightarrow> error option \<times> Trace" where
  "record_source_line self (Flat f) = (None, self)"
| "record_source_line self (MergePoint vs) =
     (case get_source_line vs of
        Inl e \<Rightarrow> (Some e, self)
      | Inr (lineno, None) \<Rightarrow> (None, self)
      | Inr (lineno, Some filename) \<Rightarrow>
          (if truthy filename
           then (None, self\<lparr>merge_point_files :=
                   AList.map_default filename [lineno] (\<lambda>l. l @ [lineno])
                     (merge_point_files self)\<rparr>)
           else (None, self)))"

definition add_instr :: "Trace \<Rightarrow> op \<Rightarrow> error option \<times> Trace" where
  "add_instr self opr =
     (case append_op (register_descr self opr) opr of
        (Some e, self') \<Rightarrow> (Some e, self')
      | (None, self') \<Rightarrow> record_source_line self' opr)"

text \<open>A sequence of \<open>add_instr\<close> calls; an exception ends it.\<close>

fun add_instrs :: "Trace \<Rightarrow> op list \<Rightarrow> error option \<times> Trace" where
  "add_instrs self [] = (None, self)"
| "add_instrs self (opr # rest) =
     (case add_instr self opr of
        (None, self') \<Rightarrow> add_instrs self' rest
      | (Some e, self') \<Rightarrow> (Some e, self'))"

definition set_addr_bounds :: "Trace \<Rightarrow> int \<Rightarrow> int \<Rightarrow> Trace" where
  "set_addr_bounds self a b = self\<lparr>addrs := (a, b)\<rparr>"

definition contains_addr :: "Trace \<Rightarrow> int \<Rightarrow> bool" where
  "contains_addr self addr = (fst (addrs self) \<le> addr \<and> addr \<le> snd (addrs self))"

text \<open>\<open>contains_patch\<close>: \<open>self.addrs\<close> is a pair from the constructor on, never \<open>None\<close>.\<close>

definition contains_patch :: "Trace \<Rightarrow> int \<Rightarrow> bool" where
  "contains_patch self addr = (fst (addrs self) \<le> addr \<and> addr \<le> snd (addrs self))"

text \<open>The loop of \<open>Trace.get_core_dump\<close> over the operations of the slice.\<close>

fun dump_ops :: "op list \<Rightarrow> int \<Rightarrow> patch list \<Rightarrow> int \<Rightarrow> error + string list" where
  "dump_ops [] base_addr ps tv = Inr []"
| "dump_ops (opr # rest) base_addr ps tv =
     (case op_get_core_dump opr base_addr ps tv of
        Inl e \<Rightarrow> Inl e
      | Inr dump \<Rightarrow>
          (case dump_ops rest base_addr ps tv of
             Inl e \<Rightarrow> Inl e
           | Inr dumps \<Rightarrow> Inr (dump # dumps)))"

text \<open>The patches of the trace, computed from those of the forest on the first call and
  kept in \<open>my_patches\<close>.\<close>

definition cached_patches :: "Trace \<Rightarrow> patch list \<Rightarrow> patch list" where
  "cached_patches self forest_patches =
     (case my_patches self of
        None \<Rightarrow> filter (\<lambda>(patch_time, addr, content). contains_patch self addr) forest_patches
      | Some ps \<Rightarrow> ps)"

text \<open>
  \<open>Trace.get_core_dump(timeval, opslice)\<close>. An end of \<open>-1\<close> is replaced by
  \<open>len(opslice)\<close>, the length of the pair, which is 2. The result is the exception, or the
  returned value (\<open>None\<close> or the joined dumps), with the trace and its cache.
\<close>

definition Trace_get_core_dump ::
  "Trace \<Rightarrow> patch list \<Rightarrow> int \<Rightarrow> int \<times> int \<Rightarrow> (error + string option) \<times> Trace" where
  "Trace_get_core_dump self forest_patches tv opslice =
     (let tv = (if tv = -1 then 2 ^ 31 - 1 else tv);
          ps = cached_patches self forest_patches;
          self = self\<lparr>my_patches := Some ps\<rparr>;
          (start, stop) = opslice;
          stop = (if stop = -1 then 2 else stop)
      in (case get_stage self (Some ''asm'') of
            Inl e \<Rightarrow> Inl e
          | Inr stage \<Rightarrow>
              if \<not> Stage_bool stage then Inr None
              else (case dump_ops (slice start stop (ops stage)) (fst (addrs self)) ps tv of
                      Inl e \<Rightarrow> Inl e
                    | Inr dumps \<Rightarrow> Inr (Some (concat dumps))),
          self))"

text \<open>The call with the default arguments \<open>timeval=-1, opslice=(0,-1)\<close>.\<close>

definition Trace_get_core_dump_default ::
  "Trace \<Rightarrow> patch list \<Rightarrow> (error + string option) \<times> Trace" where
  "Trace_get_core_dump_default self forest_patches =
     Trace_get_core_dump self forest_patches (-1) (0, -1)"

subsection \<open>iter_ranges\<close>

text \<open>
  \<open>numbers.sort()\<close> in Python 2: an integer is smaller than a string, strings compare
  bytewise. The sort is the stable insertion into a sorted list.
\<close>

fun str_le :: "string \<Rightarrow> string \<Rightarrow> bool" where
  "str_le [] t = True"
| "str_le (c # cs) [] = False"
| "str_le (c # cs) (d # ds) =
     ((of_char c :: nat) < of_char d \<or> (c = d \<and> str_le cs ds))"

fun py_le :: "sem_value \<Rightarrow> sem_value \<Rightarrow> bool" where
  "py_le (SemInt i) (SemInt j) = (i \<le> j)"
| "py_le (SemInt i) (SemStr t) = True"
| "py_le (SemStr s) (SemInt j) = False"
| "py_le (SemStr s) (SemStr t) = str_le s t"

fun py_insort :: "sem_value \<Rightarrow> sem_value list \<Rightarrow> sem_value list" where
  "py_insort x [] = [x]"
| "py_insort x (y # ys) = (if py_le x y then x # y # ys else y # py_insort x ys)"

definition py_sort :: "sem_value list \<Rightarrow> sem_value list" where
  "py_sort xs = foldr py_insort xs []"

text \<open>
  The loop of \<open>iter_ranges\<close> over \<open>enumerate(numbers[1:])\<close>: \<open>n\<close> is \<open>len(numbers)\<close>. The
  result is the list of the ranges yielded (\<open>range(first, last+1)\<close> is the list of the
  integers from \<open>first\<close> to \<open>last\<close>) and the exception that ended the generator, if any:
  subtracting from a string raises \<open>TypeError\<close>.
\<close>

fun ranges_loop ::
  "nat \<Rightarrow> nat \<Rightarrow> int \<Rightarrow> int \<Rightarrow> sem_value list \<Rightarrow> int list list \<times> error option" where
  "ranges_loop n pos first final [] = ([[first..final]], None)"
| "ranges_loop n pos first final (SemStr s # rest) = ([], Some TypeError)"
| "ranges_loop n pos first final (SemInt i # rest) =
     (if i - first > 50
      then (if pos + 1 < n
            then (case ranges_loop n (pos + 1) i i rest of
                    (rs, e) \<Rightarrow> ([first..final] # rs, e))
            else ([[first..final]], None))
      else ranges_loop n (pos + 1) first i rest)"

text \<open>\<open>iter_ranges(numbers)\<close>: the list \<open>numbers\<close> as it is afterwards (sorted in place,
  unless it is empty), the ranges yielded and the exception. \<open>raise StopIteration\<close> in
  the generator ends it, with nothing more yielded and no exception for its consumer.\<close>

definition iter_ranges ::
  "sem_value list \<Rightarrow> sem_value list \<times> int list list \<times> error option" where
  "iter_ranges numbers =
     (if length numbers = 0 then (numbers, [], None)
      else
        (case py_sort numbers of
           SemInt first # rest \<Rightarrow>
             (py_sort numbers, ranges_loop (length numbers) 0 first first rest)
         | _ \<Rightarrow> (py_sort numbers, [], Some TypeError)))"

subsection \<open>TraceForest\<close>

text \<open>
  The forest refers to its \<open>Trace\<close> objects from \<open>traces\<close>, \<open>addrs\<close> and \<open>last_trace\<close>.
  The objects are the elements of \<open>heap\<close> and a reference is a position in it. The
  fields \<open>roots\<close> and \<open>resops\<close> are never written and are left out. The field \<open>addrs\<close> of
  the forest is \<open>forest_addrs\<close> here.
\<close>

type_synonym lines = "(string \<times> (int \<times> string) list) list"

record TraceForest =
  version :: int
  keep :: bool
  heap :: "Trace list"
  traces :: "(int \<times> nat) list"
  forest_addrs :: "(int \<times> nat) list"
  last_trace :: "nat option"
  timepos :: int
  patches :: "patch list"
  source_lines :: lines

definition TraceForest_init :: "int \<Rightarrow> bool \<Rightarrow> TraceForest" where
  "TraceForest_init v keep_data =
     \<lparr> version = v, keep = keep_data, heap = [], traces = [], forest_addrs = [],
       last_trace = None, timepos = 0, patches = [], source_lines = [] \<rparr>"

text \<open>A method call on the trace object at reference \<open>r\<close>.\<close>

definition on_trace :: "TraceForest \<Rightarrow> nat \<Rightarrow> (Trace \<Rightarrow> Trace) \<Rightarrow> TraceForest" where
  "on_trace self r m = self\<lparr>heap := (heap self)[r := m (heap self ! r)]\<rparr>"

definition get_trace :: "TraceForest \<Rightarrow> int \<Rightarrow> nat option" where
  "get_trace self uid = map_of (traces self) uid"

definition get_trace_by_addr :: "TraceForest \<Rightarrow> int \<Rightarrow> nat option" where
  "get_trace_by_addr self addr = map_of (forest_addrs self) addr"

definition add_trace :: "TraceForest \<Rightarrow> string \<Rightarrow> int \<Rightarrow> error option \<times> TraceForest" where
  "add_trace self ty uid =
     (case Trace_init ty uid of
        Inl e \<Rightarrow> (Some e, self)
      | Inr trace \<Rightarrow>
          (None, self\<lparr>heap := heap self @ [trace],
                      traces := AList.update uid (length (heap self)) (traces self),
                      last_trace := Some (length (heap self))\<rparr>))"

text \<open>The loop of \<open>TraceForest.stitch_bridge\<close> over \<open>self.traces.items()\<close>: the first
  trace whose \<open>descr_numbers\<close> has the number, if any.\<close>

fun find_descr :: "Trace list \<Rightarrow> (int \<times> nat) list \<Rightarrow> int \<Rightarrow> nat option" where
  "find_descr h [] dn = None"
| "find_descr h ((tid, r) # rest) dn =
     (if Some dn \<in> descr_numbers (h ! r) then Some r else find_descr h rest dn)"

definition TraceForest_stitch_bridge ::
  "TraceForest \<Rightarrow> int \<Rightarrow> int \<Rightarrow> error option \<times> TraceForest" where
  "TraceForest_stitch_bridge self dn addr_to =
     (case find_descr (heap self) (traces self) dn of
        None \<Rightarrow> (Some NotImplementedError, self)
      | Some r \<Rightarrow>
          (None, on_trace self r (\<lambda>trace. Trace_stitch_bridge trace (timepos self) dn addr_to)))"

definition patch_memory :: "TraceForest \<Rightarrow> int \<Rightarrow> string \<Rightarrow> int \<Rightarrow> TraceForest" where
  "patch_memory self addr content tv = self\<lparr>patches := patches self @ [(tv, addr, content)]\<rparr>"

definition time_tick :: "TraceForest \<Rightarrow> TraceForest" where
  "time_tick self = self\<lparr>timepos := timepos self + 1\<rparr>"

subsection \<open>Extraction of the source lines\<close>

text \<open>\<open>str.splitlines()\<close> of a byte string: a line ends at \<open>\n\<close>, at \<open>\r\<close> or at \<open>\r\n\<close>;
  \<open>cur\<close> is the line read so far.\<close>

fun splitlines_from :: "string \<Rightarrow> string \<Rightarrow> string list" where
  "splitlines_from cur [] = (if cur = [] then [] else [cur])"
| "splitlines_from cur [c] =
     (if c = CHR 0x0A \<or> c = CHR 0x0D then [cur] else [cur @ [c]])"
| "splitlines_from cur (c # d # ds) =
     (if c = CHR 0x0D \<and> d = CHR 0x0A then cur # splitlines_from [] ds
      else if c = CHR 0x0A \<or> c = CHR 0x0D then cur # splitlines_from [] (d # ds)
      else splitlines_from (cur @ [c]) (d # ds))"

definition splitlines :: "string \<Rightarrow> string list" where
  "splitlines data = splitlines_from [] data"

text \<open>
  The state of one call of \<open>extract_source_code_lines\<close>: the local dictionary
  \<open>file_contents\<close>, the files opened so far, in order, and the forest.
\<close>

record extraction =
  file_contents :: "(string \<times> string list) list"
  opened :: "string list"
  forest :: TraceForest

text \<open>\<open>for r in range: saved_lines.append((r, split_lines[r-1]))\<close>.\<close>

fun save_lines :: "string list \<Rightarrow> string \<Rightarrow> int list \<Rightarrow> lines \<Rightarrow> error option \<times> lines" where
  "save_lines split_lines file [] sl = (None, sl)"
| "save_lines split_lines file (r # rs) sl =
     (case index split_lines (r - 1) of
        Inl e \<Rightarrow> (Some e, sl)
      | Inr line \<Rightarrow>
          save_lines split_lines file rs (AList.map_entry file (\<lambda>l. l @ [(r, line)]) sl))"

fun save_ranges ::
  "string list \<Rightarrow> string \<Rightarrow> int list list \<Rightarrow> lines \<Rightarrow> error option \<times> lines" where
  "save_ranges split_lines file [] sl = (None, sl)"
| "save_ranges split_lines file (rg # rgs) sl =
     (case save_lines split_lines file rg sl of
        (Some e, sl') \<Rightarrow> (Some e, sl')
      | (None, sl') \<Rightarrow> save_ranges split_lines file rgs sl')"

text \<open>\<open>self.source_lines[file]\<close> on a \<open>defaultdict(list)\<close> makes the entry when it is
  missing.\<close>

definition default_entry :: "string \<Rightarrow> lines \<Rightarrow> lines" where
  "default_entry file sl = (if map_of sl file = None then sl @ [(file, [])] else sl)"

text \<open>The file system is a map from a path to the content of the file; a path without
  content cannot be opened. A file is opened when it is not in \<open>file_contents\<close>.\<close>

definition read_file ::
  "(string \<Rightarrow> string option) \<Rightarrow> string \<Rightarrow> extraction \<Rightarrow> error option \<times> extraction" where
  "read_file fs file st =
     (if map_of (file_contents st) file \<noteq> None then (None, st)
      else (case fs file of
              None \<Rightarrow> (Some IOError, st)
            | Some data \<Rightarrow>
                (None, st\<lparr>file_contents := file_contents st @ [(file, splitlines data)],
                          opened := opened st @ [file]\<rparr>)))"

text \<open>
  The lines of one file for the trace at reference \<open>r\<close>: the entry of \<open>source_lines\<close> is
  made, \<open>iter_ranges\<close> sorts the list of the trace in place, and the lines of every range
  yielded are saved; then the exception of the generator, if any, is raised.
\<close>

definition extract_lines ::
  "nat \<Rightarrow> string \<Rightarrow> sem_value list \<Rightarrow> string list \<Rightarrow> TraceForest
   \<Rightarrow> error option \<times> TraceForest" where
  "extract_lines r file lns split_lines self =
     (case iter_ranges lns of
        (sorted_lns, ranges, raised) \<Rightarrow>
          (case save_ranges split_lines file ranges (default_entry file (source_lines self)) of
             (e, sl) \<Rightarrow>
               (if e = None then raised else e,
                (on_trace self r
                   (\<lambda>trace. trace\<lparr>merge_point_files :=
                      AList.map_entry (SemStr file) (\<lambda>l. sorted_lns)
                        (merge_point_files trace)\<rparr>))
                \<lparr>source_lines := sl\<rparr>)))"

text \<open>The body of the loop over \<open>trace.merge_point_files.items()\<close>; \<open>open\<close> of an integer
  raises \<open>TypeError\<close>.\<close>

fun extract_entry ::
  "(string \<Rightarrow> string option) \<Rightarrow> nat \<Rightarrow> sem_value \<times> sem_value list \<Rightarrow> extraction
   \<Rightarrow> error option \<times> extraction" where
  "extract_entry fs r (SemInt n, lns) st = (Some TypeError, st)"
| "extract_entry fs r (SemStr file, lns) st =
     (case read_file fs file st of
        (Some e, st') \<Rightarrow> (Some e, st')
      | (None, st') \<Rightarrow>
          (case map_of (file_contents st') file of
             None \<Rightarrow> (Some KeyError, st')
           | Some split_lines \<Rightarrow>
               (case extract_lines r file lns split_lines (forest st') of
                  (e, self') \<Rightarrow> (e, st'\<lparr>forest := self'\<rparr>))))"

fun extract_entries ::
  "(string \<Rightarrow> string option) \<Rightarrow> nat \<Rightarrow> (sem_value \<times> sem_value list) list \<Rightarrow> extraction
   \<Rightarrow> error option \<times> extraction" where
  "extract_entries fs r [] st = (None, st)"
| "extract_entries fs r (entry # rest) st =
     (case extract_entry fs r entry st of
        (Some e, st') \<Rightarrow> (Some e, st')
      | (None, st') \<Rightarrow> extract_entries fs r rest st')"

text \<open>The loop over \<open>self.traces.items()\<close>.\<close>

fun extract_traces ::
  "(string \<Rightarrow> string option) \<Rightarrow> (int \<times> nat) list \<Rightarrow> extraction
   \<Rightarrow> error option \<times> extraction" where
  "extract_traces fs [] st = (None, st)"
| "extract_traces fs ((tid, r) # rest) st =
     (case extract_entries fs r (merge_point_files (heap (forest st) ! r)) st of
        (Some e, st') \<Rightarrow> (Some e, st')
      | (None, st') \<Rightarrow> extract_traces fs rest st')"

text \<open>\<open>extract_source_code_lines\<close>: the exception raised, if any, the files opened, in
  order, and the forest.\<close>

definition extract_source_code_lines ::
  "(string \<Rightarrow> string option) \<Rightarrow> TraceForest \<Rightarrow> error option \<times> string list \<times> TraceForest" where
  "extract_source_code_lines fs self =
     (case extract_traces fs (traces self)
             \<lparr> file_contents = [], opened = [], forest = self \<rparr> of
        (e, st) \<Rightarrow> (e, opened st, forest st))"

subsection \<open>Encoding of the source lines\<close>

text \<open>\<open>struct.pack\<close> of one unsigned big-endian field of \<open>w\<close> bytes (\<open>B\<close>, \<open>H\<close>, \<open>I\<close> for 1, 2,
  4): a value out of the range of the field raises \<open>struct.error\<close>.\<close>

definition pack_uint :: "nat \<Rightarrow> int \<Rightarrow> error + string" where
  "pack_uint w n =
     (if 0 \<le> n \<and> n < 256 ^ w
      then Inr (map (\<lambda>k. char_of (n div 256 ^ k)) (rev [0..<w]))
      else Inl StructError)"

text \<open>\<open>struct.pack('>HBI', a, b, c)\<close>.\<close>

definition pack_HBI :: "int \<Rightarrow> int \<Rightarrow> int \<Rightarrow> error + string" where
  "pack_HBI a b c =
     (case (pack_uint 2 a, pack_uint 1 b, pack_uint 4 c) of
        (Inr x, Inr y, Inr z) \<Rightarrow> Inr (x @ y @ z)
      | _ \<Rightarrow> Inl StructError)"

text \<open>The characters that \<open>lstrip()\<close> removes from a byte string.\<close>

definition isspace :: "char \<Rightarrow> bool" where
  "isspace c = (c \<in> {CHR 0x09, CHR 0x0A, CHR 0x0B, CHR 0x0C, CHR 0x0D, CHR 0x20})"

definition lstrip :: "string \<Rightarrow> string" where
  "lstrip line = dropWhile isspace line"

text \<open>The marks of one line: \<open>indent\<close> starts at \<open>diff\<close> and grows by 7 for every tab
  among the first \<open>diff\<close> characters of the line.\<close>

definition encode_line :: "int \<times> string \<Rightarrow> error + string list" where
  "encode_line entry =
     (case entry of (lineno, line) \<Rightarrow>
        let data = lstrip line;
            diff = length line - length data;
            indent = foldl (\<lambda>indent i. if line ! i = CHR 0x09 then indent + 7 else indent)
                       (int diff) [0..<diff]
        in (case pack_HBI lineno indent (int (length data)) of
              Inl e \<Rightarrow> Inl e
            | Inr packed \<Rightarrow> Inr [packed, data]))"

fun encode_lines :: "(int \<times> string) list \<Rightarrow> error + string list" where
  "encode_lines [] = Inr []"
| "encode_lines (entry # rest) =
     (case encode_line entry of
        Inl e \<Rightarrow> Inl e
      | Inr marks \<Rightarrow>
          (case encode_lines rest of Inl e \<Rightarrow> Inl e | Inr marks' \<Rightarrow> Inr (marks @ marks')))"

text \<open>
  The loop over \<open>self.source_lines.items()\<close>. Its first statement appends
  \<open>const.MARK_SOURCE_CODE\<close>, so the exception of that read comes before anything is
  packed.
\<close>

fun encode_files :: "lines \<Rightarrow> error + string list" where
  "encode_files [] = Inr []"
| "encode_files ((filename, lns) # rest) =
     (case MARK_SOURCE_CODE of
        Inl e \<Rightarrow> Inl e
      | Inr m \<Rightarrow>
          (case (pack_uint 4 (int (length filename)), pack_uint 4 (int (length lns)),
                 encode_lines lns) of
             (Inr n, Inr k, Inr marks) \<Rightarrow>
               (case encode_files rest of
                  Inl e \<Rightarrow> Inl e
                | Inr marks' \<Rightarrow> Inr ([m, n, filename, k] @ marks @ marks'))
           | (Inl e, _, _) \<Rightarrow> Inl e
           | (_, Inl e, _) \<Rightarrow> Inl e
           | (_, _, Inl e) \<Rightarrow> Inl e))"

definition encode_source_code_lines :: "TraceForest \<Rightarrow> error + string" where
  "encode_source_code_lines self =
     (case encode_files (source_lines self) of
        Inl e \<Rightarrow> Inl e
      | Inr marks \<Rightarrow> Inr (concat marks))"

subsection \<open>Notions used in the statements\<close>

text \<open>An operation that carries a core dump, and the bytes captured for it.\<close>

fun carries_dump :: "op \<Rightarrow> bool" where
  "carries_dump (Flat f) = (core_dump f \<noteq> None)"
| "carries_dump (MergePoint vs) = False"

fun raw_capture :: "op \<Rightarrow> string" where
  "raw_capture (Flat f) = (case core_dump f of None \<Rightarrow> [] | Some (rel_pos, dump) \<Rightarrow> dump)"
| "raw_capture (MergePoint vs) = []"

text \<open>
  The runs of a sorted list of numbers as the specification words them: a run starts at
  the first number and takes the numbers that follow while they are within 50 of the
  start of the run; the next number starts a new run. A run is the pair of its first and
  its last number.
\<close>

function closed_runs :: "int list \<Rightarrow> (int \<times> int) list" where
  "closed_runs [] = []"
| "closed_runs (x # xs) =
     (x, last (x # takeWhile (\<lambda>i. i - x \<le> 50) xs))
     # closed_runs (dropWhile (\<lambda>i. i - x \<le> 50) xs)"
  by pat_completeness auto
termination
  by (relation "measure length") (auto simp: less_Suc_eq_le length_dropWhile_le)

text \<open>
  The wire format of one source line as the specification words it. \<open>be_bytes w n\<close> is the
  unsigned big-endian number \<open>n\<close> in \<open>w\<close> bytes; the indentation counts the leading
  whitespace characters that are stripped, a tab counting 7 more than its one character.
\<close>

fun be_bytes :: "nat \<Rightarrow> int \<Rightarrow> string" where
  "be_bytes 0 n = []"
| "be_bytes (Suc w) n = be_bytes w (n div 256) @ [char_of (n mod 256)]"

definition indentation :: "string \<Rightarrow> int" where
  "indentation line =
     (let stripped = takeWhile isspace line
      in int (length stripped) + 7 * int (length (filter (\<lambda>c. c = CHR 0x09) stripped)))"

definition wire_line :: "int \<times> string \<Rightarrow> string" where
  "wire_line entry =
     (case entry of (lineno, line) \<Rightarrow>
        be_bytes 2 lineno @ be_bytes 1 (indentation line)
        @ be_bytes 4 (int (length (dropWhile isspace line))) @ dropWhile isspace line)"

definition line_fits :: "int \<times> string \<Rightarrow> bool" where
  "line_fits entry =
     (case entry of (lineno, line) \<Rightarrow>
        0 \<le> lineno \<and> lineno < 65536 \<and> indentation line < 256
        \<and> int (length (dropWhile isspace line)) < 4294967296)"

text \<open>The keys of the \<open>merge_point_files\<close> of the traces of a forest, in the order in which
  \<open>extract_source_code_lines\<close> visits them.\<close>

definition referenced_files :: "TraceForest \<Rightarrow> sem_value list" where
  "referenced_files self =
     concat (map (\<lambda>(tid, r). map fst (merge_point_files (heap self ! r))) (traces self))"

text \<open>
  The invariants of the extraction: the files opened are those of \<open>file_contents\<close>, each
  once, and all of them are readable; the keys of the dictionaries of the traces do not
  change; a file that cannot be read keeps the lines it has.
\<close>

definition memo_ok :: "(string \<Rightarrow> string option) \<Rightarrow> extraction \<Rightarrow> bool" where
  "memo_ok fs st =
     (distinct (opened st) \<and> set (opened st) = fst ` set (file_contents st)
      \<and> (\<forall>p \<in> set (opened st). fs p \<noteq> None))"

definition same_keys :: "TraceForest \<Rightarrow> TraceForest \<Rightarrow> bool" where
  "same_keys self self' =
     (traces self' = traces self
      \<and> (\<forall>r. map fst (merge_point_files (heap self' ! r))
             = map fst (merge_point_files (heap self ! r))))"

definition unreadable_kept ::
  "(string \<Rightarrow> string option) \<Rightarrow> TraceForest \<Rightarrow> TraceForest \<Rightarrow> bool" where
  "unreadable_kept fs self self' =
     (\<forall>p. fs p = None \<longrightarrow> map_of (source_lines self') p = map_of (source_lines self) p)"

subsection \<open>Examples\<close>

text \<open>The operation of the first example: eight bytes \<open>A\<close> captured at relative offset 0.\<close>

definition example_op :: FlatOp where
  "example_op = \<lparr> opnum = 0, opname = ''int_add'', args = [], result = None,
     descr = None, descr_number = None, core_dump = Some (0, ''AAAAAAAA'') \<rparr>"

text \<open>An operation with the core dump \<open>d\<close>, and a trace whose assembly stage has the
  operations \<open>os\<close>.\<close>

definition dump_op :: "string \<Rightarrow> op" where
  "dump_op d = Flat \<lparr> opnum = 0, opname = ''int_add'', args = [], result = None,
     descr = None, descr_number = None, core_dump = Some (0, d) \<rparr>"

definition asm_trace :: "op list \<Rightarrow> Trace" where
  "asm_trace os =
     \<lparr> trace_type = ''loop'', inputargs = [], unique_id = 1,
       stages = [(''asm'', \<lparr> mark = ''asm'', ops = os, timeval = 0 \<rparr>)],
       last_mark = Some ''asm'', addrs = (1000, 2000), my_patches = None, bridges = [],
       descr_numbers = {}, counter = 0, merge_point_files = [] \<rparr>"

text \<open>A trace as its constructor leaves it, and the same after the marker of the
  unoptimized phase at time 3.\<close>

definition fresh_trace :: Trace where
  "fresh_trace =
     \<lparr> trace_type = ''loop'', inputargs = [], unique_id = 1, stages = [],
       last_mark = None, addrs = (-1, -1), my_patches = None, bridges = [],
       descr_numbers = {}, counter = 0, merge_point_files = [] \<rparr>"

definition noopt_trace :: Trace where
  "noopt_trace =
     fresh_trace\<lparr>last_mark := Some ''noopt'',
       stages := [(''noopt'', \<lparr> mark = ''noopt'', ops = [], timeval = 3 \<rparr>)]\<rparr>"

text \<open>A guard with the descriptor number 7, the same operation without its descriptor
  text, and a merge point of line 1 of \<open>ok.py\<close>.\<close>

definition guard_op :: FlatOp where
  "guard_op = \<lparr> opnum = 5, opname = ''guard_true'', args = [''i0''], result = None,
     descr = Some ''descr0'', descr_number = Some 7, core_dump = None \<rparr>"

definition numbered_op :: FlatOp where
  "numbered_op = guard_op\<lparr>descr := None\<rparr>"

definition merge_op :: op where
  "merge_op = MergePoint [(0x1, SemStr ''ok.py''), (0x2, SemInt 1)]"

text \<open>A forest at time 5 with two traces; the second one has the descriptor number 7.\<close>

definition owner_trace :: Trace where
  "owner_trace = fresh_trace\<lparr>unique_id := 11, descr_numbers := {Some 7}\<rparr>"

definition example_forest :: TraceForest where
  "example_forest =
     \<lparr> version = 1, keep = True, heap = [fresh_trace, owner_trace],
       traces = [(1, 0), (11, 1)], forest_addrs = [], last_trace = Some 1, timepos = 5,
       patches = [], source_lines = [] \<rparr>"

text \<open>The same forest with an address index that holds the second trace at 4096.\<close>

definition indexed_forest :: TraceForest where
  "indexed_forest = example_forest\<lparr>forest_addrs := [(4096, 1)]\<rparr>"

text \<open>A file system with the one file \<open>ok.py\<close>, of two lines.\<close>

definition one_file :: "string \<Rightarrow> string option" where
  "one_file path =
     (if path = ''ok.py'' then Some (''a = 1'' @ [CHR 0x0A] @ ''  b = 2'' @ [CHR 0x0A])
      else None)"

text \<open>A forest of one trace that refers to \<open>gone.py\<close>, then to \<open>ok.py\<close>; and a forest of
  two traces that refer to \<open>ok.py\<close>, the second one to \<open>gone.py\<close> after it.\<close>

definition abort_forest :: TraceForest where
  "abort_forest =
     example_forest\<lparr>heap :=
       [fresh_trace\<lparr>merge_point_files :=
          [(SemStr ''gone.py'', [SemInt 1]), (SemStr ''ok.py'', [SemInt 1])]\<rparr>],
       traces := [(1, 0)]\<rparr>"

definition shared_forest :: TraceForest where
  "shared_forest =
     example_forest\<lparr>heap :=
       [fresh_trace\<lparr>merge_point_files := [(SemStr ''ok.py'', [SemInt 2, SemInt 1])]\<rparr>,
        owner_trace\<lparr>merge_point_files :=
          [(SemStr ''ok.py'', [SemInt 1]), (SemStr ''gone.py'', [SemInt 1])]\<rparr>]\<rparr>"

text \<open>A forest with one source line, of a tab and a space before its text.\<close>

definition small_forest :: TraceForest where
  "small_forest =
     example_forest\<lparr>source_lines := [(''a.py'', [(3, [CHR 0x09, CHR 0x20] @ ''x = 1'')])]\<rparr>"

section \<open>Theorems\<close>

subsection \<open>Core dumps\<close>

text \<open>
  C1. One operation with capture \<open>AAAAAAAA\<close> at relative offset 0, base address 1000 and
  a patch \<open>XX\<close> at address 1002 recorded at time 5: the claim expects \<open>AAXXAAAA\<close> from time
  5 on. The code cuts the patch content at \<open>len(content) - 1\<close>, so that only one \<open>X\<close> is
  written while two bytes of the capture are replaced: the result is the seven bytes
  \<open>AAXAAAA\<close>. At time 4 the capture is unchanged. A patch that starts beyond the end of
  the capture makes the result longer than the capture.
\<close>

theorem get_core_dump_example_drops_byte:
  "FlatOp_get_core_dump example_op 1000 [(5, 1002, ''XX'')] 5 = Inr ''AAXAAAA''
   \<and> FlatOp_get_core_dump example_op 1000 [(5, 1002, ''XX'')] 6 = Inr ''AAXAAAA''
   \<and> FlatOp_get_core_dump example_op 1000 [(5, 1002, ''XX'')] 4 = Inr ''AAAAAAAA''
   \<and> FlatOp_get_core_dump example_op 1000 [(5, 1012, ''XXXXXXXX'')] 5
       = Inr ''AAAAAAAAXXXX''"
  by (simp add: FlatOp_get_core_dump_def example_op_def apply_patch_def
      slice_to_def slice_from_def slice_index_def)

text \<open>Without patches every operation of the slice gives its capture, and the result is
  their concatenation, whatever the slice is.\<close>

lemma dump_ops_no_patches:
  "\<forall>opr \<in> set os. carries_dump opr \<Longrightarrow> dump_ops os base_addr [] tv = Inr (map raw_capture os)"
proof (induction os)
  case Nil
  then show ?case by simp
next
  case (Cons opr os)
  then have "carries_dump opr" by simp
  then have "op_get_core_dump opr base_addr [] tv = Inr (raw_capture opr)"
    by (cases opr) (auto simp: FlatOp_get_core_dump_def)
  with Cons show ?case by simp
qed

lemma get_core_dump_no_patches:
  assumes "map_of (stages t) ''asm'' = Some st"
    and "\<forall>opr \<in> set (ops st). carries_dump opr"
    and "my_patches t = None \<or> my_patches t = Some []"
  shows "fst (Trace_get_core_dump t [] tv (start, stop))
         = Inr (Some (concat (map raw_capture
             (slice start (if stop = -1 then 2 else stop) (ops st)))))"
proof -
  have ps: "cached_patches t [] = []"
    using assms(3) by (auto simp: cached_patches_def)
  have sub: "\<forall>opr \<in> set (slice start (if stop = -1 then 2 else stop) (ops st)). carries_dump opr"
    using assms(2) by (auto simp: slice_def Let_def dest!: in_set_takeD in_set_dropD)
  show ?thesis
    using assms(1) dump_ops_no_patches [OF sub]
    by (simp add: Trace_get_core_dump_def Let_def ps get_stage_def Stage_bool_def)
qed

lemma slice_all: "slice 0 (int (length xs)) xs = xs"
  by (simp add: slice_def slice_index_def)

text \<open>
  C2. A trace whose assembly stage has operations with core dumps, in a forest without
  patches: the claim expects the concatenation of all the captures for the full slice.
  The full slice is the default \<open>opslice=(0,-1)\<close>, and the code replaces its end by
  \<open>len(opslice)\<close>, which is 2: of three operations with the captures \<open>AA\<close>, \<open>BB\<close> and
  \<open>CC\<close> the call returns \<open>AABB\<close>. With the end given as the number of operations the
  result is \<open>AABBCC\<close>.
\<close>

theorem get_core_dump_default_slice_two_ops:
  "fst (Trace_get_core_dump_default
          (asm_trace [dump_op ''AA'', dump_op ''BB'', dump_op ''CC'']) [])
     = Inr (Some ''AABB'')
   \<and> fst (Trace_get_core_dump
            (asm_trace [dump_op ''AA'', dump_op ''BB'', dump_op ''CC'']) [] (-1) (0, 3))
     = Inr (Some ''AABBCC'')"
  by (simp add: Trace_get_core_dump_default_def Trace_get_core_dump_def asm_trace_def
      dump_op_def cached_patches_def get_stage_def Stage_bool_def slice_def slice_index_def
      FlatOp_get_core_dump_def)

text \<open>
  C3. For a trace without an assembly stage the claim expects the result "no core dump",
  not an error. \<open>get_stage\<close> reads \<open>self.stages['asm']\<close> of a plain dictionary, which
  raises \<open>KeyError\<close> before the test \<open>if not stage\<close> is reached.
\<close>

theorem get_core_dump_no_asm_stage_raises:
  "map_of (stages t) ''asm'' = None \<Longrightarrow> fst (Trace_get_core_dump t ps tv sl) = Inl KeyError"
  by (simp add: Trace_get_core_dump_def get_stage_def Let_def split: prod.splits)

theorem get_core_dump_no_asm_stage_raises_witness:
  "map_of (stages fresh_trace) ''asm'' = None
   \<and> fst (Trace_get_core_dump_default fresh_trace []) = Inl KeyError
   \<and> fst (Trace_get_core_dump noopt_trace [(5, 1002, ''XX'')] 7 (0, 1)) = Inl KeyError"
proof -
  have 1: "map_of (stages fresh_trace) ''asm'' = None"
    by (simp add: fresh_trace_def)
  have 2: "map_of (stages noopt_trace) ''asm'' = None"
    by (simp add: noopt_trace_def fresh_trace_def)
  show ?thesis
    using 1 get_core_dump_no_asm_stage_raises [OF 1, of "[]" "-1" "(0, -1)"]
      get_core_dump_no_asm_stage_raises [OF 2, of "[(5, 1002, ''XX'')]" 7 "(0, 1)"]
    by (simp add: Trace_get_core_dump_default_def)
qed

subsection \<open>Bridges\<close>

lemma find_descr_None:
  "(find_descr h ts dn = None) = (\<forall>r \<in> snd ` set ts. Some dn \<notin> descr_numbers (h ! r))"
  by (induction ts) (auto split: if_splits)

lemma find_descr_Some:
  "find_descr h ts dn = Some r \<Longrightarrow> r \<in> snd ` set ts \<and> Some dn \<in> descr_numbers (h ! r)"
  by (induction ts) (auto split: if_splits)

text \<open>
  C4. In a forest whose references are those of trace objects: when the descriptor
  number is in the \<open>descr_numbers\<close> of exactly one trace, \<open>stitch_bridge\<close> appends the
  bridge \<open>(timepos, descr_number, addr_to)\<close> to that trace and leaves every other trace
  as it is; when no trace has the number, it raises \<open>NotImplementedError\<close> and changes
  nothing.
\<close>

theorem stitch_bridge_owner:
  assumes "\<forall>r \<in> snd ` set (traces f). r < length (heap f)"
  shows "(r \<in> snd ` set (traces f) \<and> Some dn \<in> descr_numbers (heap f ! r)
          \<and> (\<forall>r' \<in> snd ` set (traces f). Some dn \<in> descr_numbers (heap f ! r') \<longrightarrow> r' = r)
          \<longrightarrow> (\<exists>f'. TraceForest_stitch_bridge f dn addr_to = (None, f')
                 \<and> bridges (heap f' ! r) = bridges (heap f ! r) @ [(timepos f, dn, addr_to)]
                 \<and> (\<forall>r'. r' \<noteq> r \<longrightarrow> heap f' ! r' = heap f ! r')
                 \<and> f' = f\<lparr>heap := (heap f)[r := (heap f ! r)
                             \<lparr>bridges := bridges (heap f ! r) @ [(timepos f, dn, addr_to)]\<rparr>]\<rparr>))
       \<and> ((\<forall>r' \<in> snd ` set (traces f). Some dn \<notin> descr_numbers (heap f ! r'))
          \<longrightarrow> TraceForest_stitch_bridge f dn addr_to = (Some NotImplementedError, f))"
proof (intro conjI impI)
  assume own: "r \<in> snd ` set (traces f) \<and> Some dn \<in> descr_numbers (heap f ! r)
          \<and> (\<forall>r' \<in> snd ` set (traces f). Some dn \<in> descr_numbers (heap f ! r') \<longrightarrow> r' = r)"
  then have "find_descr (heap f) (traces f) dn \<noteq> None"
    by (auto simp: find_descr_None)
  then obtain q where q: "find_descr (heap f) (traces f) dn = Some q" by auto
  from find_descr_Some [OF q] own have "q = r" by blast
  moreover have "r < length (heap f)" using own assms by blast
  ultimately show "\<exists>f'. TraceForest_stitch_bridge f dn addr_to = (None, f')
                 \<and> bridges (heap f' ! r) = bridges (heap f ! r) @ [(timepos f, dn, addr_to)]
                 \<and> (\<forall>r'. r' \<noteq> r \<longrightarrow> heap f' ! r' = heap f ! r')
                 \<and> f' = f\<lparr>heap := (heap f)[r := (heap f ! r)
                             \<lparr>bridges := bridges (heap f ! r) @ [(timepos f, dn, addr_to)]\<rparr>]\<rparr>"
    using q by (simp add: TraceForest_stitch_bridge_def on_trace_def Trace_stitch_bridge_def)
next
  assume "\<forall>r' \<in> snd ` set (traces f). Some dn \<notin> descr_numbers (heap f ! r')"
  then have "find_descr (heap f) (traces f) dn = None"
    by (simp add: find_descr_None)
  then show "TraceForest_stitch_bridge f dn addr_to = (Some NotImplementedError, f)"
    by (simp add: TraceForest_stitch_bridge_def)
qed

theorem stitch_bridge_owner_witness:
  "TraceForest_stitch_bridge example_forest 7 4096
     = (None, example_forest\<lparr>heap :=
          [fresh_trace, owner_trace\<lparr>bridges := [(5, 7, 4096)]\<rparr>]\<rparr>)
   \<and> TraceForest_stitch_bridge example_forest 8 4096
     = (Some NotImplementedError, example_forest)"
proof -
  have valid: "\<forall>r \<in> snd ` set (traces example_forest). r < length (heap example_forest)"
    by (simp add: example_forest_def)
  have own: "1 \<in> snd ` set (traces example_forest)
      \<and> Some 7 \<in> descr_numbers (heap example_forest ! 1)
      \<and> (\<forall>r' \<in> snd ` set (traces example_forest).
            Some 7 \<in> descr_numbers (heap example_forest ! r') \<longrightarrow> r' = 1)"
    by (simp add: example_forest_def owner_trace_def fresh_trace_def)
  have none: "\<forall>r' \<in> snd ` set (traces example_forest).
      Some 8 \<notin> descr_numbers (heap example_forest ! r')"
    by (simp add: example_forest_def owner_trace_def fresh_trace_def)
  from stitch_bridge_owner [OF valid, of 1 7 4096] own
  have "TraceForest_stitch_bridge example_forest 7 4096
     = (None, example_forest\<lparr>heap := (heap example_forest)[1 := (heap example_forest ! 1)
          \<lparr>bridges := bridges (heap example_forest ! 1) @ [(timepos example_forest, 7, 4096)]\<rparr>]\<rparr>)"
    by blast
  moreover from stitch_bridge_owner [OF valid, of 1 8 4096] none
  have "TraceForest_stitch_bridge example_forest 8 4096
     = (Some NotImplementedError, example_forest)"
    by blast
  ultimately show ?thesis
    by (simp add: example_forest_def owner_trace_def fresh_trace_def)
qed

subsection \<open>iter_ranges\<close>

lemma py_insort_ints: "py_insort (SemInt x) (map SemInt ys) = map SemInt (insort x ys)"
  by (induction ys) auto

lemma py_sort_ints: "py_sort (map SemInt ns) = map SemInt (sort ns)"
  by (induction ns) (simp_all add: py_sort_def py_insort_ints [symmetric])

lemma ranges_loop_ints:
  "pos + length xs < n \<Longrightarrow>
   ranges_loop n pos first final (map SemInt xs)
   = (map (\<lambda>(a, b). [a..b])
        ((first, last (final # takeWhile (\<lambda>i. i - first \<le> 50) xs))
         # closed_runs (dropWhile (\<lambda>i. i - first \<le> 50) xs)), None)"
proof (induction xs arbitrary: pos first final)
  case Nil
  then show ?case by simp
next
  case (Cons i xs)
  show ?case
  proof (cases "i - first > 50")
    case True
    from Cons.prems have "pos + 1 < n" and "(pos + 1) + length xs < n" by simp_all
    with True Cons.IH [of "pos + 1" i i] show ?thesis by simp
  next
    case False
    from Cons.prems have "(pos + 1) + length xs < n" by simp
    with False Cons.IH [of "pos + 1" first i] show ?thesis by simp
  qed
qed

text \<open>
  C5. On a list of line numbers \<open>iter_ranges\<close> sorts the list and yields, for every run of
  the sorted list, the closed range from the first to the last number of the run; a run
  takes the numbers within 50 of its start, and the first number beyond that starts the
  next run. The numbers 1, 2, 3, 60, 61 and 200, in any order, give the ranges from 1 to
  3, from 60 to 61 and from 200 to 200; the empty list gives no range and no exception.
\<close>

theorem iter_ranges_closed_runs:
  "iter_ranges (map SemInt ns)
     = (map SemInt (sort ns), map (\<lambda>(a, b). [a..b]) (closed_runs (sort ns)), None)
   \<and> snd (iter_ranges (map SemInt [200, 1, 61, 2, 60, 3]))
       = ([[1, 2, 3], [60, 61], [200]], None)
   \<and> snd (iter_ranges []) = ([], None)"
proof (intro conjI)
  show g: "iter_ranges (map SemInt ns)
     = (map SemInt (sort ns), map (\<lambda>(a, b). [a..b]) (closed_runs (sort ns)), None)" for ns
  proof (cases "sort ns")
    case Nil
    then have "ns = []" by (metis length_sort length_0_conv)
    then show ?thesis by (simp add: iter_ranges_def)
  next
    case (Cons x xs)
    then have len: "length ns = Suc (length xs)" by (metis length_sort length_Cons)
    then have "ns \<noteq> []" by auto
    moreover have "0 + length xs < length ns" using len by simp
    ultimately show ?thesis
      using Cons ranges_loop_ints [of 0 xs "length ns" x x]
      by (simp add: iter_ranges_def py_sort_ints)
  qed
  have s: "sort [200, 1, 61, 2, 60, 3 :: int] = [1, 2, 3, 60, 61, 200]" by simp
  have u: "[1..3] = [1, 2, 3 :: int]" "[60..61] = [60, 61 :: int]" "[200..200] = [200 :: int]"
    by (simp_all add: upto.simps)
  show "snd (iter_ranges (map SemInt [200, 1, 61, 2, 60, 3]))
       = ([[1, 2, 3], [60, 61], [200]], None)"
    by (simp only: g s) (simp add: u)
  show "snd (iter_ranges []) = ([], None)"
    by (simp add: iter_ranges_def)
qed

subsection \<open>Stages and operations of a trace\<close>

lemma register_descr_fields [simp]:
  "stages (register_descr t opr) = stages t"
  "last_mark (register_descr t opr) = last_mark t"
  by (cases opr; simp)+

lemma record_source_line_fields [simp]:
  "stages (snd (record_source_line t opr)) = stages t"
  "last_mark (snd (record_source_line t opr)) = last_mark t"
  "descr_numbers (snd (record_source_line t opr)) = descr_numbers t"
  by (cases opr; simp split: sum.splits prod.splits option.splits)+

lemma record_source_line_raises:
  "fst (record_source_line t opr) = None
   \<or> (\<exists>vs. opr = MergePoint vs) \<and> fst (record_source_line t opr) = Some KeyError"
proof (cases opr)
  case (Flat f)
  then show ?thesis by simp
next
  case (MergePoint vs)
  have "scan_values vs a b = Inl e \<Longrightarrow> e = KeyError" for a b e
    by (induction vs a b rule: scan_values.induct) (auto split: option.splits)
  then have "get_source_line vs = Inl e \<Longrightarrow> e = KeyError" for e
    by (auto simp: get_source_line_def split: sum.splits prod.splits option.splits)
  with MergePoint show ?thesis
    by (auto split: sum.splits prod.splits option.splits)
qed

lemma add_instr_current_stage:
  assumes "last_mark t = Some k" and "map_of (stages t) k = Some st"
  shows "last_mark (snd (add_instr t opr)) = Some k"
    and "map_of (stages (snd (add_instr t opr))) k = Some (st\<lparr>ops := ops st @ [opr]\<rparr>)"
    and "map fst (stages (snd (add_instr t opr))) = map fst (stages t)"
    and "\<And>k'. k' \<noteq> k \<Longrightarrow> map_of (stages (snd (add_instr t opr))) k' = map_of (stages t) k'"
proof -
  let ?t1 = "register_descr t opr"
  let ?t2 = "?t1\<lparr>stages := AList.update k (st\<lparr>ops := ops st @ [opr]\<rparr>) (stages ?t1)\<rparr>"
  have ap: "append_op ?t1 opr = (None, ?t2)"
    using assms by (simp add: append_op_def)
  then have ai: "add_instr t opr = record_source_line ?t2 opr"
    by (simp add: add_instr_def)
  have "k \<in> fst ` set (stages t)"
    using assms(2) by (metis domI dom_map_of_conv_image_fst)
  then have keys: "map fst (AList.update k v (stages t)) = map fst (stages t)" for v
    by (simp add: update_keys)
  show "last_mark (snd (add_instr t opr)) = Some k"
    using assms(1) by (simp add: ai)
  show "map_of (stages (snd (add_instr t opr))) k = Some (st\<lparr>ops := ops st @ [opr]\<rparr>)"
    by (simp add: ai update_conv')
  show "map fst (stages (snd (add_instr t opr))) = map fst (stages t)"
    by (simp add: ai keys)
  show "\<And>k'. k' \<noteq> k \<Longrightarrow> map_of (stages (snd (add_instr t opr))) k' = map_of (stages t) k'"
    by (simp add: ai update_conv')
qed

lemma add_instr_descr_numbers:
  "descr_numbers (snd (add_instr t opr)) =
     (case opr of
        Flat f \<Rightarrow> if descr f \<noteq> None then insert (descr_number f) (descr_numbers t)
                  else descr_numbers t
      | MergePoint vs \<Rightarrow> descr_numbers t)"
proof -
  have a: "descr_numbers (snd (append_op s opr)) = descr_numbers s" for s
    by (simp add: append_op_def split: option.splits)
  have "descr_numbers (snd (add_instr t opr)) = descr_numbers (register_descr t opr)"
    using a [of "register_descr t opr"]
    by (cases "append_op (register_descr t opr) opr")
       (auto simp: add_instr_def split: option.splits)
  then show ?thesis
    by (cases opr) (simp_all add: FlatOp_has_descr_def)
qed

lemma add_instr_raises:
  assumes "last_mark t = Some k" and "map_of (stages t) k = Some st"
  shows "fst (add_instr t opr) = None
         \<or> (\<exists>vs. opr = MergePoint vs) \<and> fst (add_instr t opr) = Some KeyError"
proof -
  let ?t1 = "register_descr t opr"
  let ?t2 = "?t1\<lparr>stages := AList.update k (st\<lparr>ops := ops st @ [opr]\<rparr>) (stages ?t1)\<rparr>"
  have "append_op ?t1 opr = (None, ?t2)"
    using assms by (simp add: append_op_def)
  then have "add_instr t opr = record_source_line ?t2 opr"
    by (simp add: add_instr_def)
  then show ?thesis
    using record_source_line_raises [of ?t2 opr] by simp
qed

lemma add_instrs_current_stage:
  "add_instrs t os = (None, t') \<Longrightarrow> last_mark t = Some k \<Longrightarrow> map_of (stages t) k = Some st
   \<Longrightarrow> last_mark t' = Some k \<and> map_of (stages t') k = Some (st\<lparr>ops := ops st @ os\<rparr>)
       \<and> map fst (stages t') = map fst (stages t)"
proof (induction os arbitrary: t st)
  case Nil
  then show ?case by simp
next
  case (Cons opr os)
  obtain e t1 where a: "add_instr t opr = (e, t1)" by (cases "add_instr t opr")
  with Cons.prems(1) have e: "e = None" and r: "add_instrs t1 os = (None, t')"
    by (auto split: option.splits)
  from add_instr_current_stage [OF Cons.prems(2,3), where opr = opr] a
  have 1: "last_mark t1 = Some k"
    and 2: "map_of (stages t1) k = Some (st\<lparr>ops := ops st @ [opr]\<rparr>)"
    and 3: "map fst (stages t1) = map fst (stages t)"
    by simp_all
  from Cons.IH [OF r 1 2] 3 show ?case by simp
qed

text \<open>
  C6. A marker of the unoptimized phase on a trace whose last marker was one, too, changes
  nothing. So the operations added before and after it are in the one stage \<open>noopt\<close>, in
  the order in which they were added, and the trace has the stages it had. Every other
  transition by one of the three markers makes a new stage without operations, with the
  time of the forest (\<open>tick\<close>), under the name of the marker, and makes it the current
  one.
\<close>

theorem start_mark_unrolling:
  "(last_mark t = Some ''noopt'' \<longrightarrow> start_mark t tick MARK_TRACE = (None, t))
   \<and> (last_mark t = Some ''noopt'' \<and> map_of (stages t) ''noopt'' = Some st
        \<and> add_instrs t os1 = (None, t1) \<and> start_mark t1 tick MARK_TRACE = (None, t2)
        \<and> add_instrs t2 os2 = (None, t3)
      \<longrightarrow> map_of (stages t3) ''noopt'' = Some (st\<lparr>ops := ops st @ os1 @ os2\<rparr>)
          \<and> map fst (stages t3) = map fst (stages t))
   \<and> (m \<in> {MARK_TRACE, MARK_TRACE_OPT, MARK_TRACE_ASM}
        \<and> \<not> (m = MARK_TRACE \<and> last_mark t = Some ''noopt'')
      \<longrightarrow> (\<exists>name. name = (if m = MARK_TRACE_OPT then ''opt''
                             else if m = MARK_TRACE_ASM then ''asm'' else ''noopt'')
            \<and> start_mark t tick m =
                (None, t\<lparr>last_mark := Some name,
                          stages := AList.update name
                            \<lparr>mark = name, ops = [], timeval = tick\<rparr> (stages t)\<rparr>)))"
proof (intro conjI impI)
  assume "last_mark t = Some ''noopt''"
  then show "start_mark t tick MARK_TRACE = (None, t)"
    by (simp add: start_mark_def MARK_TRACE_def MARK_TRACE_OPT_def MARK_TRACE_ASM_def)
next
  assume a: "last_mark t = Some ''noopt'' \<and> map_of (stages t) ''noopt'' = Some st
        \<and> add_instrs t os1 = (None, t1) \<and> start_mark t1 tick MARK_TRACE = (None, t2)
        \<and> add_instrs t2 os2 = (None, t3)"
  from a add_instrs_current_stage [of t os1 t1 "''noopt''" st]
  have 1: "last_mark t1 = Some ''noopt''"
    and 2: "map_of (stages t1) ''noopt'' = Some (st\<lparr>ops := ops st @ os1\<rparr>)"
    and 3: "map fst (stages t1) = map fst (stages t)"
    by simp_all
  from 1 a have "t2 = t1"
    by (simp add: start_mark_def MARK_TRACE_def MARK_TRACE_OPT_def MARK_TRACE_ASM_def)
  with a 1 2 3 add_instrs_current_stage [of t2 os2 t3 "''noopt''" "st\<lparr>ops := ops st @ os1\<rparr>"]
  show "map_of (stages t3) ''noopt'' = Some (st\<lparr>ops := ops st @ os1 @ os2\<rparr>)"
    and "map fst (stages t3) = map fst (stages t)"
    by simp_all
next
  assume "m \<in> {MARK_TRACE, MARK_TRACE_OPT, MARK_TRACE_ASM}
        \<and> \<not> (m = MARK_TRACE \<and> last_mark t = Some ''noopt'')"
  then show "\<exists>name. name = (if m = MARK_TRACE_OPT then ''opt''
                             else if m = MARK_TRACE_ASM then ''asm'' else ''noopt'')
            \<and> start_mark t tick m =
                (None, t\<lparr>last_mark := Some name,
                          stages := AList.update name
                            \<lparr>mark = name, ops = [], timeval = tick\<rparr> (stages t)\<rparr>)"
    by (auto simp: start_mark_def new_stage_def Stage_init_def
        MARK_TRACE_def MARK_TRACE_OPT_def MARK_TRACE_ASM_def)
qed

theorem start_mark_unrolling_witness:
  "start_mark fresh_trace 3 MARK_TRACE = (None, noopt_trace)
   \<and> start_mark noopt_trace 9 MARK_TRACE = (None, noopt_trace)
   \<and> map_of (stages (snd (add_instrs (snd (add_instrs noopt_trace [Flat guard_op]))
                              [merge_op]))) ''noopt''
       = Some \<lparr> mark = ''noopt'', ops = [Flat guard_op, merge_op], timeval = 3 \<rparr>"
proof -
  let ?st = "\<lparr> mark = ''noopt'', ops = [], timeval = 3 \<rparr>"
  let ?t1 = "snd (add_instrs noopt_trace [Flat guard_op])"
  let ?t3 = "snd (add_instrs ?t1 [merge_op])"
  have a: "last_mark noopt_trace = Some ''noopt''"
    and b: "map_of (stages noopt_trace) ''noopt'' = Some ?st"
    by (simp_all add: noopt_trace_def fresh_trace_def)
  have c: "fst (add_instrs noopt_trace [Flat guard_op]) = None"
    by (simp add: add_instr_def append_op_def noopt_trace_def fresh_trace_def guard_op_def
        FlatOp_has_descr_def)
  have d: "last_mark ?t1 = Some ''noopt''"
    by (simp add: add_instr_def append_op_def noopt_trace_def fresh_trace_def guard_op_def
        FlatOp_has_descr_def)
  have e: "fst (add_instrs ?t1 [merge_op]) = None"
    by (simp add: add_instr_def append_op_def noopt_trace_def fresh_trace_def guard_op_def
        FlatOp_has_descr_def merge_op_def get_source_line_def SEM_TYPE_NAMES_def)
  note thm1 = start_mark_unrolling [of noopt_trace 9 ?st "[Flat guard_op]" ?t1 ?t1
      "[merge_op]" ?t3 MARK_TRACE]
  note thm2 = start_mark_unrolling [of fresh_trace 3 ?st "[]" fresh_trace fresh_trace
      "[]" fresh_trace MARK_TRACE]
  have g: "start_mark noopt_trace 9 MARK_TRACE = (None, noopt_trace)"
    using thm1 a by blast
  have h: "start_mark ?t1 9 MARK_TRACE = (None, ?t1)"
    using start_mark_unrolling [of ?t1 9] d by blast
  have "add_instrs noopt_trace [Flat guard_op] = (None, ?t1)"
    and "add_instrs ?t1 [merge_op] = (None, ?t3)"
    using c e by (simp_all add: prod_eq_iff)
  with thm1 a b h have i: "map_of (stages ?t3) ''noopt''
      = Some (?st\<lparr>ops := ops ?st @ [Flat guard_op] @ [merge_op]\<rparr>)"
    by blast
  have "last_mark fresh_trace \<noteq> Some ''noopt''"
    by (simp add: fresh_trace_def)
  with thm2 have "start_mark fresh_trace 3 MARK_TRACE = (None, noopt_trace)"
    by (simp add: noopt_trace_def fresh_trace_def MARK_TRACE_def MARK_TRACE_OPT_def
        MARK_TRACE_ASM_def)
  with g i show ?thesis by simp
qed

text \<open>
  C7. The claim expects the descriptor number of an operation to be registered whenever
  it is set. \<open>add_instr\<close> asks \<open>op.has_descr()\<close>, which tells whether the descriptor text
  \<open>op.descr\<close> is set: an operation with the number 7 and no descriptor text is appended
  and its number is not registered.
\<close>

theorem add_instr_number_without_descr:
  "descr_number numbered_op = Some 7
   \<and> fst (add_instr noopt_trace (Flat numbered_op)) = None
   \<and> map_of (stages (snd (add_instr noopt_trace (Flat numbered_op)))) ''noopt''
       = Some \<lparr> mark = ''noopt'', ops = [Flat numbered_op], timeval = 3 \<rparr>
   \<and> Some 7 \<notin> descr_numbers (snd (add_instr noopt_trace (Flat numbered_op)))"
  by (simp add: add_instr_def append_op_def noopt_trace_def fresh_trace_def numbered_op_def
      guard_op_def FlatOp_has_descr_def)

text \<open>
  C7, amended. On a trace with a current stage, \<open>add_instr\<close> appends the operation to the
  current stage, also when a merge point with an unknown tag raises \<open>KeyError\<close>
  afterwards, the only exception there is. Whenever the operation is a \<open>FlatOp\<close> with a
  descriptor text, its descriptor number is registered in \<open>descr_numbers\<close>; no other
  operation changes \<open>descr_numbers\<close>.
\<close>

theorem add_instr_registers_descr:
  assumes "last_mark t = Some k" and "map_of (stages t) k = Some st"
  shows "map_of (stages (snd (add_instr t opr))) k = Some (st\<lparr>ops := ops st @ [opr]\<rparr>)
     \<and> (\<forall>f. opr = Flat f \<and> descr f \<noteq> None
            \<longrightarrow> descr_number f \<in> descr_numbers (snd (add_instr t opr)))
     \<and> descr_numbers (snd (add_instr t opr)) =
         (case opr of
            Flat f \<Rightarrow> if descr f \<noteq> None then insert (descr_number f) (descr_numbers t)
                      else descr_numbers t
          | MergePoint vs \<Rightarrow> descr_numbers t)
     \<and> (fst (add_instr t opr) = None
          \<or> (\<exists>vs. opr = MergePoint vs) \<and> fst (add_instr t opr) = Some KeyError)"
  using add_instr_current_stage(2) [OF assms, where opr = opr] add_instr_raises [OF assms, of opr]
  by (auto simp: add_instr_descr_numbers)

theorem add_instr_registers_descr_witness:
  "map_of (stages (snd (add_instr noopt_trace (Flat guard_op)))) ''noopt''
     = Some \<lparr> mark = ''noopt'', ops = [Flat guard_op], timeval = 3 \<rparr>
   \<and> Some 7 \<in> descr_numbers (snd (add_instr noopt_trace (Flat guard_op)))
   \<and> fst (add_instr noopt_trace (Flat guard_op)) = None"
proof -
  have a: "last_mark noopt_trace = Some ''noopt''"
    and b: "map_of (stages noopt_trace) ''noopt''
            = Some \<lparr> mark = ''noopt'', ops = [], timeval = 3 \<rparr>"
    by (simp_all add: noopt_trace_def fresh_trace_def)
  have c: "descr guard_op \<noteq> None" and d: "descr_number guard_op = Some 7"
    by (simp_all add: guard_op_def)
  from add_instr_registers_descr [OF a b, of "Flat guard_op"] c d
  show ?thesis by auto
qed

subsection \<open>Extraction of the source lines\<close>

lemma same_keys_refl: "same_keys f f"
  by (simp add: same_keys_def)

lemma same_keys_trans: "same_keys f g \<Longrightarrow> same_keys g h \<Longrightarrow> same_keys f h"
  by (simp add: same_keys_def)

lemma unreadable_kept_refl: "unreadable_kept fs f f"
  by (simp add: unreadable_kept_def)

lemma unreadable_kept_trans:
  "unreadable_kept fs f g \<Longrightarrow> unreadable_kept fs g h \<Longrightarrow> unreadable_kept fs f h"
  by (simp add: unreadable_kept_def)

lemma map_of_map_entry_other:
  "p \<noteq> k \<Longrightarrow> map_of (AList.map_entry k g xs) p = map_of xs p"
  by (simp add: map_of_map_entry)

lemma save_lines_other:
  "save_lines split_lines file rs sl = (e, sl') \<Longrightarrow> p \<noteq> file \<Longrightarrow> map_of sl' p = map_of sl p"
  by (induction rs arbitrary: sl)
     (auto simp: map_of_map_entry_other split: sum.splits)

lemma save_ranges_other:
  "save_ranges split_lines file rgs sl = (e, sl') \<Longrightarrow> p \<noteq> file \<Longrightarrow> map_of sl' p = map_of sl p"
proof (induction rgs arbitrary: sl)
  case Nil
  then show ?case by simp
next
  case (Cons rg rgs)
  obtain e1 sl1 where s: "save_lines split_lines file rg sl = (e1, sl1)"
    by (cases "save_lines split_lines file rg sl")
  from save_lines_other [OF s Cons.prems(2)] have 1: "map_of sl1 p = map_of sl p" .
  show ?case
  proof (cases e1)
    case None
    with Cons.prems(1) s have "save_ranges split_lines file rgs sl1 = (e, sl')" by simp
    from Cons.IH [OF this Cons.prems(2)] 1 show ?thesis by simp
  next
    case (Some x)
    with Cons.prems(1) s 1 show ?thesis by simp
  qed
qed

lemma default_entry_other: "p \<noteq> file \<Longrightarrow> map_of (default_entry file sl) p = map_of sl p"
  by (simp add: default_entry_def map_add_def split: option.splits)

lemma extract_lines_keeps:
  assumes "extract_lines r file lns split_lines self = (e, self')"
  shows "same_keys self self'"
    and "\<And>p. p \<noteq> file \<Longrightarrow> map_of (source_lines self') p = map_of (source_lines self) p"
proof -
  obtain sorted_lns ranges raised where it: "iter_ranges lns = (sorted_lns, ranges, raised)"
    by (cases "iter_ranges lns")
  obtain e1 sl where sv:
    "save_ranges split_lines file ranges (default_entry file (source_lines self)) = (e1, sl)"
    by (cases "save_ranges split_lines file ranges (default_entry file (source_lines self))")
  let ?g = "\<lambda>trace. trace\<lparr>merge_point_files :=
              AList.map_entry (SemStr file) (\<lambda>l. sorted_lns) (merge_point_files trace)\<rparr>"
  from assms it sv have self': "self' = (on_trace self r ?g)\<lparr>source_lines := sl\<rparr>"
    by (simp add: extract_lines_def)
  have keys: "map fst (AList.map_entry k g xs) = map fst xs" for k g and xs :: "('a \<times> 'b) list"
    by (induction xs) auto
  have "map fst (merge_point_files ((heap self)[r := ?g (heap self ! r)] ! q))
        = map fst (merge_point_files (heap self ! q))" for q
    by (cases "r < length (heap self)") (auto simp: keys nth_list_update list_update_beyond)
  then show "same_keys self self'"
    by (simp add: self' same_keys_def on_trace_def)
  show "\<And>p. p \<noteq> file \<Longrightarrow> map_of (source_lines self') p = map_of (source_lines self) p"
    using save_ranges_other [OF sv] by (simp add: self' default_entry_other)
qed

lemma read_file_props:
  assumes "memo_ok fs st" and "read_file fs file st = (e, st')"
  shows "memo_ok fs st' \<and> forest st' = forest st
    \<and> (e = None \<longrightarrow> fs file \<noteq> None \<and> map_of (file_contents st') file \<noteq> None)
    \<and> (e \<noteq> None \<longrightarrow> e = Some IOError \<and> fs file = None \<and> st' = st)"
proof (cases "map_of (file_contents st) file")
  case (Some split_lines)
  then have "file \<in> fst ` set (file_contents st)"
    by (metis domI dom_map_of_conv_image_fst)
  then have "fs file \<noteq> None"
    using assms(1) by (simp add: memo_ok_def)
  with Some assms show ?thesis
    by (simp add: read_file_def)
next
  case None
  then have new: "file \<notin> set (opened st)"
    using assms(1) by (simp add: memo_ok_def map_of_eq_None_iff)
  show ?thesis
  proof (cases "fs file")
    case None
    with \<open>map_of (file_contents st) file = None\<close> assms show ?thesis
      by (auto simp: read_file_def)
  next
    case (Some data)
    with \<open>map_of (file_contents st) file = None\<close> assms(2)
    have st': "st' = st\<lparr>file_contents := file_contents st @ [(file, splitlines data)],
                         opened := opened st @ [file]\<rparr>" and e: "e = None"
      by (simp_all add: read_file_def)
    have "memo_ok fs st'"
      using assms(1) new Some by (auto simp: st' memo_ok_def)
    then show ?thesis
      using Some e by (simp add: st')
  qed
qed

lemma extract_entry_props:
  assumes "memo_ok fs st" and "extract_entry fs r entry st = (e, st')"
  shows "memo_ok fs st' \<and> same_keys (forest st) (forest st')
      \<and> unreadable_kept fs (forest st) (forest st')
      \<and> (e = None \<longrightarrow> (\<exists>p. fst entry = SemStr p \<and> fs p \<noteq> None))"
proof -
  obtain k lns where entry: "entry = (k, lns)" by (cases entry)
  show ?thesis
  proof (cases k)
    case (SemInt n)
    with assms entry show ?thesis
      by (auto simp: same_keys_refl unreadable_kept_refl)
  next
    case (SemStr path)
    obtain "file" where SemStr: "k = SemStr file" using SemStr by simp
    obtain e1 st1 where rf: "read_file fs file st = (e1, st1)"
      by (cases "read_file fs file st")
    note rp = read_file_props [OF assms(1) rf]
    show ?thesis
    proof (cases e1)
      case (Some x)
      with assms(2) entry SemStr rf have "st' = st1" "e = Some x" by simp_all
      with rp Some show ?thesis
        by (auto simp: same_keys_refl unreadable_kept_refl)
    next
      case None
      with rp obtain split_lines where
        fc: "map_of (file_contents st1) file = Some split_lines" and readable: "fs file \<noteq> None"
        by auto
      obtain e2 self2 where
        el: "extract_lines r file lns split_lines (forest st1) = (e2, self2)"
        by (cases "extract_lines r file lns split_lines (forest st1)")
      from assms(2) entry SemStr rf None fc el
      have st': "st' = st1\<lparr>forest := self2\<rparr>" and e: "e = e2" by simp_all
      note ek = extract_lines_keeps [OF el]
      have "memo_ok fs st'"
        using rp by (simp add: st' memo_ok_def)
      moreover have "same_keys (forest st) (forest st')"
        using ek(1) rp by (simp add: st')
      moreover have "unreadable_kept fs (forest st) (forest st')"
        unfolding unreadable_kept_def
      proof (intro allI impI)
        fix p assume "fs p = None"
        with readable have "p \<noteq> file" by auto
        from ek(2) [OF this] rp show "map_of (source_lines (forest st')) p
            = map_of (source_lines (forest st)) p"
          by (simp add: st')
      qed
      ultimately show ?thesis
        using readable entry SemStr by simp
    qed
  qed
qed

lemma extract_entries_props:
  "memo_ok fs st \<Longrightarrow> extract_entries fs r entries st = (e, st') \<Longrightarrow>
   memo_ok fs st' \<and> same_keys (forest st) (forest st')
   \<and> unreadable_kept fs (forest st) (forest st')
   \<and> (e = None \<longrightarrow> list_all (\<lambda>entry. \<exists>p. fst entry = SemStr p \<and> fs p \<noteq> None) entries)"
proof (induction entries arbitrary: st)
  case Nil
  then show ?case by (simp add: same_keys_refl unreadable_kept_refl)
next
  case (Cons entry entries)
  obtain e1 st1 where x: "extract_entry fs r entry st = (e1, st1)"
    by (cases "extract_entry fs r entry st")
  note p1 = extract_entry_props [OF Cons.prems(1) x]
  show ?case
  proof (cases e1)
    case (Some err)
    with Cons.prems(2) x have "st' = st1" "e = Some err" by simp_all
    with p1 show ?thesis by simp
  next
    case None
    with Cons.prems(2) x have "extract_entries fs r entries st1 = (e, st')" by simp
    from Cons.IH [OF _ this] p1 None show ?thesis
      by (auto intro: same_keys_trans unreadable_kept_trans)
  qed
qed

lemma extract_traces_props:
  "memo_ok fs st \<Longrightarrow> extract_traces fs ts st = (e, st') \<Longrightarrow>
   memo_ok fs st' \<and> same_keys (forest st) (forest st')
   \<and> unreadable_kept fs (forest st) (forest st')
   \<and> (e = None \<longrightarrow>
        list_all (\<lambda>(tid, r). list_all (\<lambda>k. \<exists>p. k = SemStr p \<and> fs p \<noteq> None)
                    (map fst (merge_point_files (heap (forest st) ! r)))) ts)"
proof (induction ts arbitrary: st)
  case Nil
  then show ?case by (simp add: same_keys_refl unreadable_kept_refl)
next
  case (Cons t ts)
  obtain tid r where t: "t = (tid, r)" by (cases t)
  obtain e1 st1 where
    x: "extract_entries fs r (merge_point_files (heap (forest st) ! r)) st = (e1, st1)"
    by (cases "extract_entries fs r (merge_point_files (heap (forest st) ! r)) st")
  note p1 = extract_entries_props [OF Cons.prems(1) x]
  show ?case
  proof (cases e1)
    case (Some err)
    with Cons.prems(2) x t have "st' = st1" "e = Some err" by simp_all
    with p1 show ?thesis by simp
  next
    case None
    with Cons.prems(2) x t have r: "extract_traces fs ts st1 = (e, st')" by simp
    have keys: "map fst (merge_point_files (heap (forest st1) ! q))
                = map fst (merge_point_files (heap (forest st) ! q))" for q
      using p1 by (simp add: same_keys_def)
    from Cons.IH [OF _ r] p1 None show ?thesis
      by (auto simp: t keys list_all_iff intro: same_keys_trans unreadable_kept_trans)
  qed
qed

text \<open>
  C8. The claim expects a file that cannot be read to be recorded and passed over, the
  extraction going on with the other files. The code opens the file without handling a
  failure: for a trace that refers to \<open>gone.py\<close> and then to \<open>ok.py\<close>, of which only
  \<open>ok.py\<close> exists, the extraction ends with \<open>IOError\<close> at \<open>gone.py\<close>; \<open>ok.py\<close> is not
  opened and no line of it is in \<open>source_lines\<close>.
\<close>

theorem extract_stops_at_unreadable_file:
  "one_file ''gone.py'' = None \<and> one_file ''ok.py'' \<noteq> None
   \<and> extract_source_code_lines one_file abort_forest = (Some IOError, [], abort_forest)
   \<and> source_lines abort_forest = []"
  by (simp add: extract_source_code_lines_def abort_forest_def example_forest_def
      fresh_trace_def read_file_def one_file_def)

text \<open>
  C8, amended. Whatever \<open>extract_source_code_lines\<close> returns or raises: every file is
  opened at most once in the call; and when a file that a trace refers to cannot be read,
  the call ends with an exception and that file has in \<open>source_lines\<close> the entries it had
  before the call, no more.
\<close>

theorem extract_unreadable_file_fatal:
  "extract_source_code_lines fs f = (e, reads, f') \<Longrightarrow>
   distinct reads
   \<and> (\<forall>p. SemStr p \<in> set (referenced_files f) \<and> fs p = None
          \<longrightarrow> e \<noteq> None \<and> map_of (source_lines f') p = map_of (source_lines f) p)
   \<and> (e = None \<longrightarrow> list_all (\<lambda>k. \<exists>p. k = SemStr p \<and> fs p \<noteq> None) (referenced_files f))"
proof -
  assume a: "extract_source_code_lines fs f = (e, reads, f')"
  let ?st = "\<lparr> file_contents = [], opened = [], forest = f \<rparr>"
  obtain st' where x: "extract_traces fs (traces f) ?st = (e, st')"
    and r: "reads = opened st'" and f': "f' = forest st'"
    using a by (auto simp: extract_source_code_lines_def split: prod.splits)
  have "memo_ok fs ?st" by (simp add: memo_ok_def)
  from extract_traces_props [OF this x]
  have 1: "memo_ok fs st'" and 3: "unreadable_kept fs f f'"
    and 4: "e = None \<longrightarrow>
        list_all (\<lambda>(tid, r). list_all (\<lambda>k. \<exists>p. k = SemStr p \<and> fs p \<noteq> None)
                    (map fst (merge_point_files (heap f ! r)))) (traces f)"
    by (simp_all add: f')
  from 4 have 5: "e = None \<longrightarrow>
      list_all (\<lambda>k. \<exists>p. k = SemStr p \<and> fs p \<noteq> None) (referenced_files f)"
    by (auto simp: referenced_files_def list_all_iff)
  show ?thesis
    using 1 3 5 by (auto simp: r memo_ok_def unreadable_kept_def list_all_iff)
qed

theorem extract_unreadable_file_fatal_witness:
  "extract_source_code_lines one_file shared_forest
     = (Some IOError, [''ok.py''],
        shared_forest\<lparr>heap :=
          [fresh_trace\<lparr>merge_point_files := [(SemStr ''ok.py'', [SemInt 1, SemInt 2])]\<rparr>,
           owner_trace\<lparr>merge_point_files :=
             [(SemStr ''ok.py'', [SemInt 1]), (SemStr ''gone.py'', [SemInt 1])]\<rparr>],
          source_lines :=
            [(''ok.py'', [(1, ''a = 1''), (2, ''  b = 2''), (1, ''a = 1'')])]\<rparr>)
   \<and> distinct (fst (snd (extract_source_code_lines one_file shared_forest)))
   \<and> map_of (source_lines (snd (snd (extract_source_code_lines one_file shared_forest))))
        ''gone.py'' = None"
proof -
  let ?after = "shared_forest\<lparr>heap :=
          [fresh_trace\<lparr>merge_point_files := [(SemStr ''ok.py'', [SemInt 1, SemInt 2])]\<rparr>,
           owner_trace\<lparr>merge_point_files :=
             [(SemStr ''ok.py'', [SemInt 1]), (SemStr ''gone.py'', [SemInt 1])]\<rparr>],
          source_lines :=
            [(''ok.py'', [(1, ''a = 1''), (2, ''  b = 2''), (1, ''a = 1'')])]\<rparr>"
  have run: "extract_source_code_lines one_file shared_forest
      = (Some IOError, [''ok.py''], ?after)"
    by (simp add: extract_source_code_lines_def shared_forest_def example_forest_def
        fresh_trace_def owner_trace_def read_file_def one_file_def splitlines_def
        extract_lines_def iter_ranges_def py_sort_def default_entry_def on_trace_def
        index_def upto.simps)
  have ref: "SemStr ''gone.py'' \<in> set (referenced_files shared_forest)"
    and gone: "one_file ''gone.py'' = None"
    and before: "map_of (source_lines shared_forest) ''gone.py'' = None"
    by (simp_all add: referenced_files_def shared_forest_def example_forest_def
        fresh_trace_def owner_trace_def one_file_def)
  from extract_unreadable_file_fatal [OF run] ref gone before
  have "distinct [''ok.py''] \<and> map_of (source_lines ?after) ''gone.py'' = None"
    by auto
  with run show ?thesis by simp
qed

subsection \<open>Encoding of the source lines\<close>

text \<open>The part of the encoding that packs the lines of a file (\<open>encode_lines\<close>) gives
  the bytes of the wire format when every value fits its field, and \<open>struct.error\<close>
  otherwise.\<close>

lemma map_rev_upt_Suc:
  "map f (rev [0..<Suc w]) = map (\<lambda>k. f (Suc k)) (rev [0..<w]) @ [f 0]"
proof -
  have "[0..<Suc w] = 0 # map Suc [0..<w]"
    by (simp add: upt_conv_Cons map_Suc_upt del: upt_Suc)
  then show ?thesis
    by (simp add: rev_map comp_def del: upt_Suc)
qed

lemma pack_bytes: "0 \<le> n \<Longrightarrow> map (\<lambda>k. char_of (n div 256 ^ k)) (rev [0..<w]) = be_bytes w n"
proof (induction w arbitrary: n)
  case 0
  then show ?case by simp
next
  case (Suc w)
  have "n div 256 ^ Suc k = n div 256 div 256 ^ k" for k
    by (simp add: zdiv_zmult2_eq)
  moreover have "0 \<le> n div 256" using Suc.prems by simp
  ultimately show ?case
    using Suc.IH [of "n div 256"]
    by (simp add: map_rev_upt_Suc del: upt_Suc power_Suc)
qed

lemma pack_uint_eq:
  "pack_uint w n = (if 0 \<le> n \<and> n < 256 ^ w then Inr (be_bytes w n) else Inl StructError)"
  by (simp add: pack_uint_def pack_bytes)

lemma count_tabs:
  "d \<le> length line \<Longrightarrow>
   foldl (\<lambda>indent i. if line ! i = c then indent + 7 else indent) a [0..<d]
   = a + 7 * int (length (filter (\<lambda>x. x = c) (take d line)))"
  by (induction d) (auto simp: take_Suc_conv_app_nth)

lemma strip_length: "length line - length (dropWhile P line) = length (takeWhile P line)"
proof -
  have "length (takeWhile P line) + length (dropWhile P line) = length line"
    by (metis length_append takeWhile_dropWhile_id)
  then show ?thesis by simp
qed

lemma take_strip: "take (length (takeWhile P line)) line = takeWhile P line"
  by (metis append_eq_conv_conj takeWhile_dropWhile_id)

lemma indent_eq:
  "foldl (\<lambda>indent i. if line ! i = CHR 0x09 then indent + 7 else indent)
     (int (length line - length (lstrip line))) [0..<length line - length (lstrip line)]
   = indentation line"
proof -
  have "length (takeWhile isspace line) \<le> length line"
    by (rule length_takeWhile_le)
  then show ?thesis
    by (simp add: lstrip_def strip_length count_tabs take_strip indentation_def Let_def)
qed

lemma indentation_nonneg: "0 \<le> indentation line"
  by (simp add: indentation_def Let_def)

lemma encode_line_eq:
  "encode_line entry =
     (if line_fits entry
      then Inr [be_bytes 2 (fst entry) @ be_bytes 1 (indentation (snd entry))
                @ be_bytes 4 (int (length (dropWhile isspace (snd entry)))),
                dropWhile isspace (snd entry)]
      else Inl StructError)"
proof (cases entry)
  case (Pair lineno line)
  have "encode_line (lineno, line) =
     (case pack_HBI lineno (indentation line) (int (length (lstrip line))) of
        Inl e \<Rightarrow> Inl e | Inr packed \<Rightarrow> Inr [packed, lstrip line])"
    unfolding encode_line_def Let_def prod.case indent_eq ..
  then show ?thesis
    using Pair indentation_nonneg [of line]
    by (simp add: pack_HBI_def pack_uint_eq line_fits_def lstrip_def)
qed

lemma encode_lines_eq:
  "map_sum id concat (encode_lines lns) =
     (if list_all line_fits lns then Inr (concat (map wire_line lns)) else Inl StructError)"
proof (induction lns)
  case Nil
  then show ?case by simp
next
  case (Cons entry lns)
  show ?case
  proof (cases "encode_lines lns")
    case (Inl e)
    with Cons.IH show ?thesis
      by (simp add: encode_line_eq split: if_splits)
  next
    case (Inr marks)
    with Cons.IH show ?thesis
      by (cases entry) (simp add: encode_line_eq wire_line_def split: if_splits)
  qed
qed

text \<open>
  C9. The claim expects the byte string of the wire format for every \<open>source_lines\<close>.
  The loop starts with the read of \<open>const.MARK_SOURCE_CODE\<close>, a name that \<open>constants.py\<close>
  does not define: for every \<open>source_lines\<close> with a file the call raises
  \<open>AttributeError\<close>, and it returns the empty string for the empty \<open>source_lines\<close>. So
  it does for the one line of \<open>a.py\<close> in the example.
\<close>

theorem encode_raises_attribute_error:
  "encode_source_code_lines f
     = (if source_lines f = [] then Inr [] else Inl AttributeError)
   \<and> encode_source_code_lines small_forest = Inl AttributeError"
proof -
  have "encode_files sl = (if sl = [] then Inr [] else Inl AttributeError)" for sl
    by (cases sl) (auto simp: MARK_SOURCE_CODE_def)
  then have "encode_source_code_lines g
     = (if source_lines g = [] then Inr [] else Inl AttributeError)" for g
    by (simp add: encode_source_code_lines_def)
  then show ?thesis
    by (simp add: small_forest_def example_forest_def)
qed

subsection \<open>The address index\<close>

text \<open>
  C10. The claim expects \<open>get_trace_by_addr\<close> to find a trace once \<open>set_addr_bounds\<close> has
  set its bounds. \<open>set_addr_bounds\<close> writes the field \<open>addrs\<close> of the trace only, and
  nothing else in the module writes the index of the forest: after the bounds 4096 and
  8192 are set on the second trace of the example the lookup of 4096 finds nothing.
\<close>

theorem set_addr_bounds_not_indexed:
  "addrs (heap (on_trace example_forest 1 (\<lambda>t. set_addr_bounds t 4096 8192)) ! 1)
     = (4096, 8192)
   \<and> get_trace_by_addr (on_trace example_forest 1 (\<lambda>t. set_addr_bounds t 4096 8192)) 4096
     = None"
  by (simp add: on_trace_def set_addr_bounds_def get_trace_by_addr_def example_forest_def)

text \<open>
  C10, amended. \<open>set_addr_bounds\<close> sets the bounds of the trace and leaves the address
  index of the forest as it is, so that a lookup gives after it what it gave before. The
  index is a dictionary, with one entry for an address: \<open>get_trace_by_addr\<close> returns a
  trace exactly when the index holds that trace at the address, and it returns \<open>None\<close>,
  without an exception, exactly when the address is not in the index.
\<close>

theorem set_addr_bounds_keeps_index:
  assumes "distinct (map fst (forest_addrs f))"
  shows "forest_addrs (on_trace f r (\<lambda>t. set_addr_bounds t a b)) = forest_addrs f
   \<and> get_trace_by_addr (on_trace f r (\<lambda>t. set_addr_bounds t a b)) x = get_trace_by_addr f x
   \<and> (r < length (heap f) \<longrightarrow>
        addrs (heap (on_trace f r (\<lambda>t. set_addr_bounds t a b)) ! r) = (a, b))
   \<and> (get_trace_by_addr f x = Some r') = ((x, r') \<in> set (forest_addrs f))
   \<and> (get_trace_by_addr f x = None) = (x \<notin> fst ` set (forest_addrs f))"
  using assms
  by (simp add: on_trace_def set_addr_bounds_def get_trace_by_addr_def map_of_eq_None_iff)

theorem set_addr_bounds_keeps_index_witness:
  "get_trace_by_addr (on_trace indexed_forest 0 (\<lambda>t. set_addr_bounds t 100 200)) 4096
     = Some 1
   \<and> addrs (heap (on_trace indexed_forest 0 (\<lambda>t. set_addr_bounds t 100 200)) ! 0)
     = (100, 200)
   \<and> get_trace_by_addr indexed_forest 100 = None"
proof -
  have d: "distinct (map fst (forest_addrs indexed_forest))"
    and l: "0 < length (heap indexed_forest)"
    and m: "(4096, 1) \<in> set (forest_addrs indexed_forest)"
    and n: "100 \<notin> fst ` set (forest_addrs indexed_forest)"
    by (simp_all add: indexed_forest_def example_forest_def)
  from set_addr_bounds_keeps_index [OF d, of 0 100 200 4096 1] m
  have 1: "get_trace_by_addr (on_trace indexed_forest 0 (\<lambda>t. set_addr_bounds t 100 200)) 4096
      = Some 1"
    by simp
  from set_addr_bounds_keeps_index [OF d, of 0 100 200 100 1] l n
  have 2: "addrs (heap (on_trace indexed_forest 0 (\<lambda>t. set_addr_bounds t 100 200)) ! 0)
      = (100, 200)"
    and 3: "get_trace_by_addr indexed_forest 100 = None"
    by simp_all
  from 1 2 3 show ?thesis by simp
qed

end
